theory Spec2Isabelle
  imports Complex_Main "HOL-Library.AList"
begin

section \<open>Project state (src/app.py, class ProjectState)\<close>

text \<open>
  \<^verbatim>\<open>datetime.now()\<close> is modelled by a clock that is read and then advanced: every
  method that reads the time takes the pair of the object and the clock and returns the
  updated pair. Time stamps are kept as the clock values (the source stores their
  \<^verbatim>\<open>isoformat()\<close> text).
\<close>

type_synonym timestamp = nat

record message =
  msg_sender :: string
  msg_content :: string
  msg_timestamp :: timestamp

record artifact =
  art_content :: string
  art_type :: string
  art_created_by :: string
  art_timestamp :: timestamp

text \<open>
  \<^verbatim>\<open>self.artifacts\<close> is a Python dict: an association list in insertion order, a
  store under an existing key replacing the value in place (\<open>AList.update\<close>).
\<close>

record ProjectState =
  project_id :: string
  requirements :: string
  current_agent :: "string option"
  status :: string
  started_at :: timestamp
  completed_at :: "timestamp option"
  messages :: "message list"
  artifacts :: "(string \<times> artifact) list"
  result :: "string option"

definition ProjectState_init :: "string \<Rightarrow> string \<Rightarrow> timestamp \<Rightarrow> ProjectState \<times> timestamp" where
  "ProjectState_init pid reqs t =
     (\<lparr>project_id = pid, requirements = reqs, current_agent = None,
       status = ''initializing'', started_at = t, completed_at = None,
       messages = [], artifacts = [], result = None\<rparr>, Suc t)"

definition add_message ::
  "string \<Rightarrow> string \<Rightarrow> timestamp option \<Rightarrow> ProjectState \<times> timestamp \<Rightarrow> ProjectState \<times> timestamp" where
  "add_message sender content ts s =
     (case s of (p, t) \<Rightarrow>
        (case ts of
           None \<Rightarrow>
             (p\<lparr>messages := messages p @
                  [\<lparr>msg_sender = sender, msg_content = content, msg_timestamp = t\<rparr>]\<rparr>, Suc t)
         | Some t0 \<Rightarrow>
             (p\<lparr>messages := messages p @
                  [\<lparr>msg_sender = sender, msg_content = content, msg_timestamp = t0\<rparr>]\<rparr>, t)))"

text \<open>
  \<^verbatim>\<open>add_artifact\<close> stores unconditionally and returns nothing: the method has no
  \<^verbatim>\<open>return\<close> statement and no test of the name.
\<close>

definition add_artifact ::
  "string \<Rightarrow> string \<Rightarrow> string \<Rightarrow> string \<Rightarrow> ProjectState \<times> timestamp \<Rightarrow> ProjectState \<times> timestamp" where
  "add_artifact name content artifact_type agent s =
     (case s of (p, t) \<Rightarrow>
        (p\<lparr>artifacts := AList.update name
              \<lparr>art_content = content, art_type = artifact_type,
               art_created_by = agent, art_timestamp = t\<rparr> (artifacts p)\<rparr>, Suc t))"

definition update_status :: "string \<Rightarrow> ProjectState \<times> timestamp \<Rightarrow> ProjectState \<times> timestamp" where
  "update_status st s =
     (case s of (p, t) \<Rightarrow>
        (if st = ''completed'' then (p\<lparr>status := st, completed_at := Some t\<rparr>, Suc t)
         else (p\<lparr>status := st\<rparr>, t)))"

section \<open>The process state and the request handlers (src/app.py)\<close>

text \<open>
  \<^verbatim>\<open>active_projects\<close> is the module-level dict. The record also holds the session
  cookie's \<^verbatim>\<open>project_id\<close>, the identifiers for which \<^verbatim>\<open>threading.Thread(...).start()\<close>
  has been called, and the clock. Handlers and the workflow run here one at a time; the
  interleaving of threads is not part of the model.
\<close>

record world =
  active_projects :: "string \<rightharpoonup> ProjectState"
  session_project_id :: "string option"
  threads :: "string list"
  clock :: timestamp

type_synonym http_error = "string \<times> nat"

text \<open>
  A JSON field read with \<^verbatim>\<open>data.get(key)\<close> is \<open>None\<close> when absent and the text
  otherwise; \<^verbatim>\<open>not v\<close> holds for \<open>None\<close> and for the empty text.
\<close>

definition py_not :: "string option \<Rightarrow> bool" where
  "py_not v = (case v of None \<Rightarrow> True | Some s \<Rightarrow> s = [])"

record start_response =
  sr_project_id :: string
  sr_status :: string
  sr_message :: string

text \<open>\<open>fresh\<close> is the value of \<^verbatim>\<open>str(uuid.uuid4())\<close>.\<close>

definition start_project ::
  "string option \<Rightarrow> string \<Rightarrow> world \<Rightarrow> (http_error + start_response) \<times> world" where
  "start_project reqs fresh w =
     (if py_not reqs then (Inl (''No requirements provided'', 400), w)
      else
        (case reqs of
           None \<Rightarrow> (Inl (''No requirements provided'', 400), w)
         | Some r \<Rightarrow>
             (case add_message ''System''
                     ''Project initialized. Starting business analysis phase...'' None
                     (ProjectState_init fresh r (clock w)) of
                (project, t) \<Rightarrow>
                  (Inr \<lparr>sr_project_id = fresh, sr_status = ''initializing'',
                        sr_message = ''Project initialized. Starting business analysis phase...''\<rparr>,
                   w\<lparr>active_projects := (active_projects w)(fresh \<mapsto> project),
                     session_project_id := Some fresh,
                     threads := threads w @ [fresh],
                     clock := t\<rparr>))))"

record status_response =
  ps_project_id :: string
  ps_status :: string
  ps_current_agent :: "string option"
  ps_started_at :: timestamp
  ps_completed_at :: "timestamp option"
  ps_message_count :: nat
  ps_artifact_count :: nat

definition project_status :: "string \<Rightarrow> world \<Rightarrow> http_error + status_response" where
  "project_status pid w =
     (case active_projects w pid of
        None \<Rightarrow> Inl (''Project not found'', 404)
      | Some project \<Rightarrow>
          Inr \<lparr>ps_project_id = pid, ps_status = status project,
               ps_current_agent = current_agent project,
               ps_started_at = started_at project,
               ps_completed_at = completed_at project,
               ps_message_count = length (messages project),
               ps_artifact_count = length (artifacts project)\<rparr>)"

text \<open>
  The slice \<^verbatim>\<open>xs[i:]\<close>: a negative \<open>i\<close> counts from the end (and is clipped at the
  start), an \<open>i\<close> beyond the end gives the empty list.
\<close>

definition py_slice_from :: "'a list \<Rightarrow> int \<Rightarrow> 'a list" where
  "py_slice_from xs i =
     (if i < 0 then drop (nat (int (length xs) + i)) xs else drop (nat i) xs)"

record messages_response =
  mr_project_id :: string
  mr_messages :: "message list"
  mr_last_id :: int

definition project_messages :: "string \<Rightarrow> int \<Rightarrow> world \<Rightarrow> http_error + messages_response" where
  "project_messages pid last_id w =
     (case active_projects w pid of
        None \<Rightarrow> Inl (''Project not found'', 404)
      | Some project \<Rightarrow>
          (let new_messages = py_slice_from (messages project) last_id
           in Inr \<lparr>mr_project_id = pid, mr_messages = new_messages,
                   mr_last_id = last_id + int (length new_messages)\<rparr>))"

definition send_message ::
  "string option \<Rightarrow> string option \<Rightarrow> world \<Rightarrow> (http_error + string \<times> string) \<times> world" where
  "send_message pid msg w =
     (if py_not pid \<or> py_not msg then (Inl (''Project ID and message required'', 400), w)
      else
        (case (pid, msg) of
           (Some i, Some m) \<Rightarrow>
             (case active_projects w i of
                None \<Rightarrow> (Inl (''Project not found'', 404), w)
              | Some project \<Rightarrow>
                  (case add_message ''User'' m None (project, clock w) of
                     (project', t) \<Rightarrow>
                       (Inr (''success'', ''Message received''),
                        w\<lparr>active_projects := (active_projects w)(i \<mapsto> project'),
                          clock := t\<rparr>)))
         | _ \<Rightarrow> (Inl (''Project ID and message required'', 400), w)))"

definition project_artifacts ::
  "string \<Rightarrow> world \<Rightarrow> http_error + string \<times> (string \<times> artifact) list" where
  "project_artifacts pid w =
     (case active_projects w pid of
        None \<Rightarrow> Inl (''Project not found'', 404)
      | Some project \<Rightarrow> Inr (pid, artifacts project))"

definition get_artifact ::
  "string \<Rightarrow> string \<Rightarrow> world \<Rightarrow> http_error + string \<times> string \<times> artifact" where
  "get_artifact pid artifact_name w =
     (case active_projects w pid of
        None \<Rightarrow> Inl (''Project not found'', 404)
      | Some project \<Rightarrow>
          (case map_of (artifacts project) artifact_name of
             None \<Rightarrow> Inl (''Artifact not found'', 404)
           | Some a \<Rightarrow> Inr (pid, artifact_name, a)))"

section \<open>The placeholder workflow (src/workflow/graph.py)\<close>

record WorkflowState =
  ws_project_id :: string
  ws_requirements :: string
  business_requirements_doc :: "(string \<times> string) list"
  database_design :: "(string \<times> string) list"
  database_scripts :: "(string \<times> string) list"
  apex_application :: "(string \<times> string) list"
  frontend_assets :: "(string \<times> string) list"
  test_results :: "(string \<times> string) list"
  current_phase :: string
  errors :: "string list"
  completed_phases :: "string list"

text \<open>The dataclass constructor; \<open>fresh\<close> is the default factory's \<^verbatim>\<open>str(uuid.uuid4())\<close>.\<close>

definition WorkflowState_init :: "string \<Rightarrow> string \<Rightarrow> WorkflowState" where
  "WorkflowState_init fresh reqs =
     \<lparr>ws_project_id = fresh, ws_requirements = reqs,
      business_requirements_doc = [], database_design = [], database_scripts = [],
      apex_application = [], frontend_assets = [], test_results = [],
      current_phase = ''initialization'', errors = [], completed_phases = []\<rparr>"

definition steps :: "string list" where
  "steps = [''business_analysis'', ''database_design'', ''database_implementation'',
            ''apex_development'', ''frontend_enhancement'', ''testing'',
            ''project_completion'']"

text \<open>
  The body of the loop of \<^verbatim>\<open>run_workflow\<close> (the \<^verbatim>\<open>print\<close> writes to standard output
  only). It raises nothing, so the \<^verbatim>\<open>except\<close> branch is never taken, and the function
  returns the \<^verbatim>\<open>WorkflowState\<close> object itself. The first argument is not used.
\<close>

definition run_phase :: "WorkflowState \<Rightarrow> string \<Rightarrow> WorkflowState" where
  "run_phase st step = st\<lparr>current_phase := step, completed_phases := completed_phases st @ [step]\<rparr>"

definition run_workflow :: "string \<Rightarrow> string \<Rightarrow> string \<Rightarrow> WorkflowState" where
  "run_workflow workflow reqs fresh = foldl run_phase (WorkflowState_init fresh reqs) steps"

section \<open>What the engine iterates over\<close>

text \<open>
  \<^verbatim>\<open>for step in run_workflow(...)\<close> asks the returned object for an iterator. An
  iterator yields items one by one and then either stops or raises. One item is an object
  whose \<^verbatim>\<open>state\<close> attribute is a dict read with \<^verbatim>\<open>.get(key, default)\<close> for the four
  keys below, each possibly absent.
\<close>

record lc_message =
  lc_type :: string
  lc_content :: string

record artifact_dict =
  ad_content :: "string option"
  ad_type :: "string option"
  ad_created_by :: "string option"

record step_state =
  st_current_agent :: "string option"
  st_messages :: "lc_message list option"
  st_artifacts :: "(string \<times> artifact_dict) list option"
  st_completed_steps :: "string list option"

text \<open>
  What is raised is either an instance of \<^verbatim>\<open>Exception\<close> (or of a class derived from
  it), which \<^verbatim>\<open>except Exception\<close> catches, or an instance of another class under
  \<^verbatim>\<open>BaseException\<close> (\<^verbatim>\<open>KeyboardInterrupt\<close>, \<^verbatim>\<open>SystemExit\<close>, \<^verbatim>\<open>GeneratorExit\<close>),
  which it does not catch. The text is \<^verbatim>\<open>str(e)\<close>.
\<close>

datatype py_exception = Exception string | BaseException string

datatype 'a pystream = Stop | Raise py_exception | Yield 'a "'a pystream"

datatype pyobj = WorkflowStateObj WorkflowState | StepIterator "step_state pystream"

text \<open>
  A dataclass instance defines neither \<^verbatim>\<open>__iter__\<close> nor \<^verbatim>\<open>__getitem__\<close>, so
  \<^verbatim>\<open>iter()\<close> on it raises \<^verbatim>\<open>TypeError\<close> (a class derived from \<^verbatim>\<open>Exception\<close>),
  whose text is the class name in single quotes (character 0x27) followed by the words
  below.
\<close>

definition not_iterable :: "string \<Rightarrow> string" where
  "not_iterable cls = CHR 0x27 # cls @ CHR 0x27 # '' object is not iterable''"

fun py_iter :: "pyobj \<Rightarrow> step_state pystream" where
  "py_iter (WorkflowStateObj _) = Raise (Exception (not_iterable ''WorkflowState''))"
| "py_iter (StepIterator it) = it"

definition dict_get :: "'a option \<Rightarrow> 'a \<Rightarrow> 'a" where
  "dict_get v d = (case v of None \<Rightarrow> d | Some x \<Rightarrow> x)"

section \<open>Progress arithmetic\<close>

text \<open>
  \<^verbatim>\<open>(len(completed_steps) / len(workflow_steps)) * 100\<close> is computed in binary64:
  the quotient of the two integers is rounded to the nearest double (ties to even), the
  product with 100 is rounded again, and \<^verbatim>\<open>int()\<close> truncates. \<open>fl64\<close> is that rounding
  on the non-negative rationals, for values in the normal range (every value met here is
  either 0 or between 1/7 and 100 times a list length).
\<close>

fun ilog2 :: "nat \<Rightarrow> nat" where
  "ilog2 n = (if n < 2 then 0 else Suc (ilog2 (n div 2)))"

definition pow2 :: "int \<Rightarrow> rat" where
  "pow2 e = (if 0 \<le> e then 2 ^ nat e else 1 / 2 ^ nat (- e))"

definition float_exponent :: "rat \<Rightarrow> int" where
  "float_exponent x =
     (if 1 \<le> x then int (ilog2 (nat \<lfloor>x\<rfloor>))
      else - int (Suc (ilog2 (nat (\<lceil>1 / x\<rceil> - 1)))))"

definition round_half_even :: "rat \<Rightarrow> int" where
  "round_half_even y =
     (let f = \<lfloor>y\<rfloor>; r = y - of_int f
      in if r < 1 / 2 then f else if 1 / 2 < r then f + 1 else if even f then f else f + 1)"

definition fl64 :: "rat \<Rightarrow> rat" where
  "fl64 x =
     (if x \<le> 0 then 0
      else (let u = pow2 (float_exponent x - 52) in of_int (round_half_even (x / u)) * u))"

definition workflow_steps :: "string list" where
  "workflow_steps = [''business_analysis'', ''database_design'', ''database_implementation'',
                     ''apex_development'', ''frontend_enhancement'', ''qa_testing'',
                     ''project_completion'']"

definition progress_of :: "nat \<Rightarrow> rat" where
  "progress_of k = fl64 (fl64 (of_nat k / of_nat (length workflow_steps)) * 100)"

definition py_int :: "rat \<Rightarrow> int" where
  "py_int x = (if 0 \<le> x then \<lfloor>x\<rfloor> else \<lceil>x\<rceil>)"

fun str_nat :: "nat \<Rightarrow> string" where
  "str_nat n =
     (if n < 10 then [char_of (48 + n)]
      else str_nat (n div 10) @ [char_of (48 + n mod 10)])"

definition py_str :: "int \<Rightarrow> string" where
  "py_str i = (if i < 0 then CHR ''-'' # str_nat (nat (- i)) else str_nat (nat i))"

definition progress_status :: "nat \<Rightarrow> string" where
  "progress_status k = ''In progress - '' @ py_str (py_int (progress_of k)) @ ''% complete''"

text \<open>
  The two recursive equations are unfolded only where a proof asks for them.
\<close>

declare ilog2.simps [simp del]

declare str_nat.simps [simp del]

section \<open>The engine (src/app.py, run_project_workflow)\<close>

text \<open>
  Lines 92 to 96. \<open>agent\<close> is \<^verbatim>\<open>project.current_agent\<close>, assigned on line 88 and not
  changed inside the loop.
\<close>

definition add_new_message :: "string \<Rightarrow> ProjectState \<times> timestamp \<Rightarrow> lc_message \<Rightarrow> ProjectState \<times> timestamp" where
  "add_new_message agent s msg =
     add_message (if lc_type msg = ''human'' then ''User'' else agent) (lc_content msg) None s"

definition add_messages :: "string \<Rightarrow> lc_message list \<Rightarrow> ProjectState \<times> timestamp \<Rightarrow> ProjectState \<times> timestamp" where
  "add_messages agent msgs s =
     (if msgs \<noteq> [] \<and> length (messages (fst s)) < length msgs
      then foldl (add_new_message agent) s (drop (length (messages (fst s))) msgs)
      else s)"

text \<open>Lines 100 to 107: the guarded store of one item of \<^verbatim>\<open>artifacts.items()\<close>.\<close>

definition merge_artifact ::
  "ProjectState \<times> timestamp \<Rightarrow> string \<times> artifact_dict \<Rightarrow> ProjectState \<times> timestamp" where
  "merge_artifact s item =
     (case item of (name, a) \<Rightarrow>
        (if name \<notin> fst ` set (artifacts (fst s))
         then add_artifact name (dict_get (ad_content a) '''') (dict_get (ad_type a) '''')
                (dict_get (ad_created_by a) '''') s
         else s))"

definition merge_artifacts ::
  "(string \<times> artifact_dict) list \<Rightarrow> ProjectState \<times> timestamp \<Rightarrow> ProjectState \<times> timestamp" where
  "merge_artifacts items s = foldl merge_artifact s items"

text \<open>Lines 85 to 114: the body of the loop, for one yielded step.\<close>

definition process_step :: "step_state \<Rightarrow> ProjectState \<times> timestamp \<Rightarrow> ProjectState \<times> timestamp" where
  "process_step st s =
     (let agent = dict_get (st_current_agent st) '''';
          s1 = (case s of (p, t) \<Rightarrow> (p\<lparr>current_agent := Some agent\<rparr>, t));
          s2 = add_messages agent (dict_get (st_messages st) []) s1;
          s3 = merge_artifacts (dict_get (st_artifacts st) []) s2;
          completed_steps = dict_get (st_completed_steps st) []
      in if completed_steps \<noteq> [] then update_status (progress_status (length completed_steps)) s3
         else s3)"

text \<open>
  The \<^verbatim>\<open>for\<close> loop: the project after the last step taken, with the exception that
  ended the iteration, if one did. What was stored before an exception stays stored.
\<close>

fun consume ::
  "step_state pystream \<Rightarrow> ProjectState \<times> timestamp \<Rightarrow> py_exception option \<times> ProjectState \<times> timestamp" where
  "consume Stop s = (None, s)"
| "consume (Raise e) s = (Some e, s)"
| "consume (Yield st rest) s = consume rest (process_step st s)"

text \<open>
  The \<^verbatim>\<open>try\<close> statement, for the object that the call of \<^verbatim>\<open>run_workflow\<close> returns.
  The handler is \<^verbatim>\<open>except Exception\<close>: an exception of another class leaves the
  statement, and the function, with the project as the loop left it. The first component
  of the result is the text of that exception, \<open>None\<close> when the function returns.
\<close>

definition workflow_body ::
  "pyobj \<Rightarrow> ProjectState \<times> timestamp \<Rightarrow> string option \<times> ProjectState \<times> timestamp" where
  "workflow_body obj s =
     (case consume (py_iter obj) (update_status ''running'' s) of
        (None, p, t) \<Rightarrow>
          (None, update_status ''completed''
                   (p\<lparr>result := Some ''Project completed successfully.''\<rparr>, t))
      | (Some (Exception e), s') \<Rightarrow>
          (None, update_status ''error'' (add_message ''System'' (''Error: '' @ e) None s'))
      | (Some (BaseException e), s') \<Rightarrow> (Some e, s'))"

text \<open>
  The same statements, as the list of the states the project passes through: one entry
  after each statement that can change the project, in the order of execution.
\<close>

fun run_trace :: "('s \<Rightarrow> 'a \<Rightarrow> 's) \<Rightarrow> 's \<Rightarrow> 'a list \<Rightarrow> 's list" where
  "run_trace f s [] = []"
| "run_trace f s (x # xs) = f s x # run_trace f (f s x) xs"

definition process_step_trace ::
  "step_state \<Rightarrow> ProjectState \<times> timestamp \<Rightarrow> (ProjectState \<times> timestamp) list" where
  "process_step_trace st s =
     (let agent = dict_get (st_current_agent st) '''';
          s1 = (case s of (p, t) \<Rightarrow> (p\<lparr>current_agent := Some agent\<rparr>, t));
          msgs = dict_get (st_messages st) [];
          s2 = add_messages agent msgs s1;
          s3 = merge_artifacts (dict_get (st_artifacts st) []) s2;
          completed_steps = dict_get (st_completed_steps st) []
      in [s1]
         @ (if msgs \<noteq> [] \<and> length (messages (fst s1)) < length msgs
            then run_trace (add_new_message agent) s1 (drop (length (messages (fst s1))) msgs)
            else [])
         @ run_trace merge_artifact s2 (dict_get (st_artifacts st) [])
         @ (if completed_steps \<noteq> []
            then [update_status (progress_status (length completed_steps)) s3] else []))"

fun consume_trace ::
  "step_state pystream \<Rightarrow> ProjectState \<times> timestamp \<Rightarrow> (ProjectState \<times> timestamp) list" where
  "consume_trace Stop s = []"
| "consume_trace (Raise e) s = []"
| "consume_trace (Yield st rest) s = process_step_trace st s @ consume_trace rest (process_step st s)"

definition workflow_trace ::
  "pyobj \<Rightarrow> ProjectState \<times> timestamp \<Rightarrow> (ProjectState \<times> timestamp) list" where
  "workflow_trace obj s =
     [update_status ''running'' s]
     @ consume_trace (py_iter obj) (update_status ''running'' s)
     @ (case consume (py_iter obj) (update_status ''running'' s) of
          (None, p, t) \<Rightarrow>
            [(p\<lparr>result := Some ''Project completed successfully.''\<rparr>, t),
             update_status ''completed''
               (p\<lparr>result := Some ''Project completed successfully.''\<rparr>, t)]
        | (Some (Exception e), s') \<Rightarrow>
            [add_message ''System'' (''Error: '' @ e) None s',
             update_status ''error'' (add_message ''System'' (''Error: '' @ e) None s')]
        | (Some (BaseException e), s') \<Rightarrow> [])"

text \<open>
  What leaves \<^verbatim>\<open>run_project_workflow\<close> as an exception: the \<^verbatim>\<open>KeyError\<close> of the lookup
  on line 66, which is outside the \<^verbatim>\<open>try\<close>, for an identifier that is not registered,
  or an exception that the handler does not catch.
\<close>

datatype py_error = KeyError string | Uncaught string

text \<open>
  The engine for a given workflow function \<open>run_wf\<close>. \<open>Inr\<close> is the normal return;
  \<open>Inl\<close> carries the exception together with the process state it leaves behind.
\<close>

definition run_project_workflow_with ::
  "(string \<Rightarrow> string \<Rightarrow> pyobj) \<Rightarrow> string \<Rightarrow> world \<Rightarrow> py_error \<times> world + world" where
  "run_project_workflow_with run_wf pid w =
     (case active_projects w pid of
        None \<Rightarrow> Inl (KeyError pid, w)
      | Some project \<Rightarrow>
          (case workflow_body (run_wf pid (requirements project)) (project, clock w) of
             (None, project', t) \<Rightarrow>
               Inr (w\<lparr>active_projects := (active_projects w)(pid \<mapsto> project'), clock := t\<rparr>)
           | (Some e, project', t) \<Rightarrow>
               Inl (Uncaught e,
                    w\<lparr>active_projects := (active_projects w)(pid \<mapsto> project'), clock := t\<rparr>)))"

text \<open>The engine as the repository has it: \<open>run_wf\<close> is \<^verbatim>\<open>run_workflow\<close> of graph.py.\<close>

definition run_project_workflow :: "string \<Rightarrow> string \<Rightarrow> world \<Rightarrow> py_error \<times> world + world" where
  "run_project_workflow fresh pid w =
     run_project_workflow_with (\<lambda>i r. WorkflowStateObj (run_workflow i r fresh)) pid w"

text \<open>
  The states the project passes through while the repository's engine runs on it.
\<close>

definition run_project_workflow_trace ::
  "string \<Rightarrow> string \<Rightarrow> world \<Rightarrow> (ProjectState \<times> timestamp) list" where
  "run_project_workflow_trace fresh pid w =
     (case active_projects w pid of
        None \<Rightarrow> []
      | Some project \<Rightarrow>
          workflow_trace (WorkflowStateObj (run_workflow pid (requirements project) fresh))
            (project, clock w))"


section \<open>Concrete states used as inputs\<close>

text \<open>The process right after start-up, and after one project has been started in it.\<close>

definition initial_world :: world where
  "initial_world = \<lparr>active_projects = Map.empty, session_project_id = None, threads = [], clock = 0\<rparr>"

definition tracker_world :: world where
  "tracker_world = snd (start_project (Some ''Build a task tracker'') ''p1'' initial_world)"

definition tracker_project :: ProjectState where
  "tracker_project =
     \<lparr>project_id = ''p1'', requirements = ''Build a task tracker'', current_agent = None,
      status = ''initializing'', started_at = 0, completed_at = None,
      messages = [\<lparr>msg_sender = ''System'',
                   msg_content = ''Project initialized. Starting business analysis phase...'',
                   msg_timestamp = 1\<rparr>],
      artifacts = [], result = None\<rparr>"

definition chatted_world :: world where
  "chatted_world = snd (send_message (Some ''p1'') (Some ''Use a dark theme'') tracker_world)"

definition chatted_project :: ProjectState where
  "chatted_project =
     tracker_project\<lparr>messages := messages tracker_project @
        [\<lparr>msg_sender = ''User'', msg_content = ''Use a dark theme'', msg_timestamp = 2\<rparr>]\<rparr>"

text \<open>What an iterator yields before it ends, and the exception it ends with, if any.\<close>

fun yielded :: "'a pystream \<Rightarrow> 'a list" where
  "yielded Stop = []"
| "yielded (Raise e) = []"
| "yielded (Yield x rest) = x # yielded rest"

fun raised :: "'a pystream \<Rightarrow> py_exception option" where
  "raised Stop = None"
| "raised (Raise e) = Some e"
| "raised (Yield x rest) = raised rest"

text \<open>
  The project of \<open>tracker_world\<close> after the engine has run on it: with the repository's
  \<^verbatim>\<open>run_workflow\<close>, with an iterator that yields nothing, and with an iterator that
  yields one analysis step and then fails.
\<close>

definition failed_project :: ProjectState where
  "failed_project =
     tracker_project\<lparr>status := ''error'',
       messages := messages tracker_project @
         [\<lparr>msg_sender = ''System'',
           msg_content = ''Error: '' @ not_iterable ''WorkflowState'',
           msg_timestamp = 2\<rparr>]\<rparr>"

definition failed_world :: world where
  "failed_world = tracker_world\<lparr>active_projects := [''p1'' \<mapsto> failed_project], clock := 3\<rparr>"

definition completed_project :: ProjectState where
  "completed_project =
     tracker_project\<lparr>status := ''completed'', completed_at := Some 2,
       result := Some ''Project completed successfully.''\<rparr>"

definition completed_world :: world where
  "completed_world = tracker_world\<lparr>active_projects := [''p1'' \<mapsto> completed_project], clock := 3\<rparr>"




section \<open>Basic facts about the concrete states\<close>

lemma tracker_world_eq:
  "tracker_world =
     \<lparr>active_projects = [''p1'' \<mapsto> tracker_project],
      session_project_id = Some ''p1'', threads = [''p1''], clock = 2\<rparr>"
  by (simp add: tracker_world_def tracker_project_def initial_world_def start_project_def
      py_not_def ProjectState_init_def add_message_def)

lemma tracker_world_p1: "active_projects tracker_world ''p1'' = Some tracker_project"
  by (simp add: tracker_world_eq)

lemma chatted_world_eq:
  "chatted_world =
     \<lparr>active_projects = [''p1'' \<mapsto> chatted_project],
      session_project_id = Some ''p1'', threads = [''p1''], clock = 3\<rparr>"
  by (simp add: chatted_world_def chatted_project_def tracker_world_eq send_message_def
      py_not_def add_message_def)

lemma chatted_world_p1: "active_projects chatted_world ''p1'' = Some chatted_project"
  by (simp add: chatted_world_eq)

lemma chatted_messages:
  "messages chatted_project =
     [\<lparr>msg_sender = ''System'',
       msg_content = ''Project initialized. Starting business analysis phase...'',
       msg_timestamp = 1\<rparr>,
      \<lparr>msg_sender = ''User'', msg_content = ''Use a dark theme'', msg_timestamp = 2\<rparr>]"
  by (simp add: chatted_project_def tracker_project_def)

section \<open>Starting a project\<close>

text \<open>
  C10. When the requirements field is absent or empty, \<^verbatim>\<open>start_project\<close> answers with
  the error \<^verbatim>\<open>("No requirements provided", 400)\<close> and leaves the whole process state as it
  was: no project is created or registered and no thread is started. A project identifier
  is answered only when the requirements are a non-empty text.
\<close>

theorem start_project_requirements:
  "(reqs = None \<or> reqs = Some [] \<longrightarrow>
      start_project reqs fresh w = (Inl (''No requirements provided'', 400), w)) \<and>
   (\<forall>r. fst (start_project reqs fresh w) = Inr r \<longrightarrow> (\<exists>s. reqs = Some s \<and> s \<noteq> []))"
  by (auto simp: start_project_def py_not_def split: option.splits prod.splits)

theorem start_project_requirements_witness:
  "start_project (Some []) ''p2'' tracker_world =
     (Inl (''No requirements provided'', 400), tracker_world) \<and>
   start_project None ''p2'' tracker_world =
     (Inl (''No requirements provided'', 400), tracker_world) \<and>
   fst (start_project (Some ''Build a task tracker'') ''p1'' initial_world) =
     Inr \<lparr>sr_project_id = ''p1'', sr_status = ''initializing'',
          sr_message = ''Project initialized. Starting business analysis phase...''\<rparr>"
proof -
  have a: "start_project (Some []) ''p2'' tracker_world =
      (Inl (''No requirements provided'', 400), tracker_world)"
    using start_project_requirements [of "Some []" "''p2''" tracker_world] by simp
  have b: "start_project None ''p2'' tracker_world =
      (Inl (''No requirements provided'', 400), tracker_world)"
    using start_project_requirements [of None "''p2''" tracker_world] by simp
  have c: "fst (start_project (Some ''Build a task tracker'') ''p1'' initial_world) =
     Inr \<lparr>sr_project_id = ''p1'', sr_status = ''initializing'',
          sr_message = ''Project initialized. Starting business analysis phase...''\<rparr>"
    by (simp add: start_project_def py_not_def ProjectState_init_def add_message_def)
  from a b c show ?thesis by blast
qed

text \<open>
  C8, as stated, fails: registering under an identifier that is already present succeeds
  and replaces the stored project. Here the identifier \<^verbatim>\<open>p1\<close> is generated a second time.
\<close>

theorem start_project_duplicate_counterexample:
  "fst (start_project (Some ''Second project'') ''p1'' tracker_world) =
     Inr \<lparr>sr_project_id = ''p1'', sr_status = ''initializing'',
          sr_message = ''Project initialized. Starting business analysis phase...''\<rparr> \<and>
   active_projects (snd (start_project (Some ''Second project'') ''p1'' tracker_world)) ''p1''
     \<noteq> active_projects tracker_world ''p1''"
  by (simp add: tracker_world_eq tracker_project_def start_project_def py_not_def
      ProjectState_init_def add_message_def)

text \<open>
  C8, amended. Registration is a plain store under the generated identifier and has no
  failure of its own: for non-empty requirements \<^verbatim>\<open>start_project\<close> always succeeds,
  answers the generated identifier, stores under it a new project in status
  \<^verbatim>\<open>initializing\<close> with the given requirements, and leaves the state stored under every
  other identifier unchanged.
\<close>

theorem start_project_registers:
  "reqs = Some r \<Longrightarrow> r \<noteq> [] \<Longrightarrow>
   (\<exists>resp. fst (start_project reqs fresh w) = Inr resp \<and> sr_project_id resp = fresh) \<and>
   (\<exists>p. active_projects (snd (start_project reqs fresh w)) fresh = Some p \<and>
        project_id p = fresh \<and> requirements p = r \<and> status p = ''initializing'') \<and>
   (\<forall>i. i \<noteq> fresh \<longrightarrow>
        active_projects (snd (start_project reqs fresh w)) i = active_projects w i)"
  by (simp add: start_project_def py_not_def ProjectState_init_def add_message_def)

theorem start_project_registers_witness:
  "sr_project_id (projr (fst (start_project (Some ''Second project'') ''p2'' tracker_world))) = ''p2'' \<and>
   active_projects (snd (start_project (Some ''Second project'') ''p2'' tracker_world)) ''p1''
     = Some tracker_project"
  using start_project_registers [of "Some ''Second project''" "''Second project''" "''p2''" tracker_world]
  by (auto simp: tracker_world_p1)

section \<open>Reading messages by cursor\<close>

lemma py_slice_from_nonneg: "0 \<le> c \<Longrightarrow> py_slice_from xs c = drop (nat c) xs"
  by (simp add: py_slice_from_def)

text \<open>
  C3. A cursor is the number of messages a reader has consumed already, so it is not
  negative. For every registered project and every cursor \<open>c\<close>, the handler answers
  exactly the messages at the positions from \<open>c\<close> up to the message count, in order:
  the answer has one entry for each such position, and entry \<open>i\<close> is the message at
  position \<open>c + i\<close>. The answer is empty when \<open>c\<close> is at or beyond the message count,
  and the new cursor is \<open>c\<close> plus the number of messages answered. The read changes
  nothing, so a repeated call answers the same; and when \<open>c\<close> is at most the message
  count, a call at the new cursor answers exactly what has been appended since: nothing
  twice and nothing skipped.
\<close>

theorem project_messages_from_cursor:
  assumes "active_projects w pid = Some p" and "0 \<le> c"
  shows "\<exists>r. project_messages pid c w = Inr r \<and>
           mr_messages r = drop (nat c) (messages p) \<and>
           length (mr_messages r) = length (messages p) - nat c \<and>
           (\<forall>i < length (mr_messages r). mr_messages r ! i = messages p ! (nat c + i)) \<and>
           (int (length (messages p)) \<le> c \<longrightarrow> mr_messages r = []) \<and>
           mr_last_id r = c + int (length (mr_messages r)) \<and>
           (c \<le> int (length (messages p)) \<longrightarrow>
              (\<forall>w' more. active_projects w' pid = Some (p\<lparr>messages := messages p @ more\<rparr>) \<longrightarrow>
                 (\<exists>r'. project_messages pid (mr_last_id r) w' = Inr r' \<and> mr_messages r' = more \<and>
                       mr_last_id r' = int (length (messages p @ more)))))"
proof -
  define r where "r = \<lparr>mr_project_id = pid, mr_messages = drop (nat c) (messages p),
             mr_last_id = c + int (length (drop (nat c) (messages p)))\<rparr>"
  have 1: "project_messages pid c w = Inr r"
    using assms by (simp add: r_def project_messages_def py_slice_from_nonneg Let_def)
  have 2: "mr_messages r = drop (nat c) (messages p)"
    by (simp add: r_def)
  have 3: "length (mr_messages r) = length (messages p) - nat c"
    by (simp add: r_def)
  have 4: "\<forall>i < length (mr_messages r). mr_messages r ! i = messages p ! (nat c + i)"
    by (simp add: r_def)
  have 5: "int (length (messages p)) \<le> c \<longrightarrow> mr_messages r = []"
    using assms(2) by (simp add: r_def)
  have 6: "mr_last_id r = c + int (length (mr_messages r))"
    by (simp add: r_def)
  have next_cursor: "mr_last_id r = int (length (messages p))" if "c \<le> int (length (messages p))"
    using that assms(2) by (simp add: r_def)
  have 7: "\<exists>r'. project_messages pid (mr_last_id r) w' = Inr r' \<and> mr_messages r' = more \<and>
                 mr_last_id r' = int (length (messages p @ more))"
    if le: "c \<le> int (length (messages p))"
      and w': "active_projects w' pid = Some (p\<lparr>messages := messages p @ more\<rparr>)" for w' more
  proof -
    have "py_slice_from (messages p @ more) (int (length (messages p))) = more"
      by (simp add: py_slice_from_nonneg)
    with w' next_cursor [OF le] show ?thesis
      by (simp add: project_messages_def Let_def)
  qed
  from 1 2 3 4 5 6 7 show ?thesis by blast
qed

theorem project_messages_from_cursor_witness:
  "active_projects chatted_world ''p1'' = Some chatted_project \<and>
   active_projects tracker_world ''p1'' = Some tracker_project \<and> (0::int) \<le> 1 \<and>
   1 \<le> int (length (messages tracker_project)) \<and>
   (\<exists>r. project_messages ''p1'' 1 chatted_world = Inr r \<and>
        mr_messages r =
          [\<lparr>msg_sender = ''User'', msg_content = ''Use a dark theme'', msg_timestamp = 2\<rparr>] \<and>
        mr_last_id r = 2) \<and>
   (\<exists>r r'. project_messages ''p1'' 1 tracker_world = Inr r \<and> mr_messages r = [] \<and>
        project_messages ''p1'' (mr_last_id r) chatted_world = Inr r' \<and>
        mr_messages r' =
          [\<lparr>msg_sender = ''User'', msg_content = ''Use a dark theme'', msg_timestamp = 2\<rparr>])"
proof -
  let ?user = "\<lparr>msg_sender = ''User'', msg_content = ''Use a dark theme'', msg_timestamp = 2\<rparr>"
  have h: "active_projects chatted_world ''p1'' = Some chatted_project"
    by (rule chatted_world_p1)
  have h0: "active_projects tracker_world ''p1'' = Some tracker_project"
    by (rule tracker_world_p1)
  have len: "1 \<le> int (length (messages tracker_project))"
    by (simp add: tracker_project_def)
  obtain r where r: "project_messages ''p1'' 1 chatted_world = Inr r"
      "mr_messages r = drop (nat 1) (messages chatted_project)"
      "mr_last_id r = 1 + int (length (mr_messages r))"
    using project_messages_from_cursor [OF h, of 1] by auto
  from r have 1: "\<exists>r. project_messages ''p1'' 1 chatted_world = Inr r \<and>
        mr_messages r = [?user] \<and> mr_last_id r = 2"
    by (simp add: chatted_messages)
  obtain r0 where r0: "project_messages ''p1'' 1 tracker_world = Inr r0"
      "mr_messages r0 = drop (nat 1) (messages tracker_project)"
      and later: "\<forall>w' more.
         active_projects w' ''p1'' = Some (tracker_project\<lparr>messages := messages tracker_project @ more\<rparr>) \<longrightarrow>
         (\<exists>r'. project_messages ''p1'' (mr_last_id r0) w' = Inr r' \<and> mr_messages r' = more \<and>
               mr_last_id r' = int (length (messages tracker_project @ more)))"
    using project_messages_from_cursor [OF h0, of 1] len by auto
  have "active_projects chatted_world ''p1'' =
      Some (tracker_project\<lparr>messages := messages tracker_project @ [?user]\<rparr>)"
    by (simp add: chatted_world_p1 chatted_project_def)
  with later obtain r' where "project_messages ''p1'' (mr_last_id r0) chatted_world = Inr r'"
      "mr_messages r' = [?user]"
    by blast
  moreover from r0 have "mr_messages r0 = []" by (simp add: tracker_project_def)
  ultimately have 2: "\<exists>r r'. project_messages ''p1'' 1 tracker_world = Inr r \<and> mr_messages r = [] \<and>
        project_messages ''p1'' (mr_last_id r) chatted_world = Inr r' \<and> mr_messages r' = [?user]"
    using r0(1) by blast
  from h h0 len 1 2 show ?thesis by simp
qed

section \<open>Artifacts: first writer wins\<close>

lemma add_message_artifacts [simp]: "artifacts (fst (add_message a b c s)) = artifacts (fst s)"
  by (simp add: add_message_def split: prod.splits option.splits)

lemma update_status_artifacts [simp]: "artifacts (fst (update_status st s)) = artifacts (fst s)"
  by (simp add: update_status_def split: prod.splits)

lemma foldl_add_new_message_artifacts [simp]:
  "artifacts (fst (foldl (add_new_message agent) s msgs)) = artifacts (fst s)"
  by (induction msgs arbitrary: s) (simp_all add: add_new_message_def)

lemma add_messages_artifacts [simp]: "artifacts (fst (add_messages agent msgs s)) = artifacts (fst s)"
  by (simp add: add_messages_def)

lemma keys_update: "fst ` set (AList.update k v al) = insert k (fst ` set al)"
  by (induction al) auto

lemma merge_artifact_keeps:
  "map_of (artifacts (fst s)) n = Some x \<Longrightarrow> map_of (artifacts (fst (merge_artifact s item))) n = Some x"
proof -
  assume n: "map_of (artifacts (fst s)) n = Some x"
  obtain name a where item: "item = (name, a)" by (cases item)
  obtain p t where s: "s = (p, t)" by (cases s)
  show ?thesis
  proof (cases "name \<in> fst ` set (artifacts p)")
    case True
    with n item s show ?thesis by (simp add: merge_artifact_def)
  next
    case False
    with n s have "name \<noteq> n"
      by (auto simp: map_of_eq_None_iff [symmetric])
    with n item s False show ?thesis
      by (simp add: merge_artifact_def add_artifact_def update_conv')
  qed
qed

lemma merge_artifacts_keeps:
  "map_of (artifacts (fst s)) n = Some x \<Longrightarrow> map_of (artifacts (fst (merge_artifacts items s))) n = Some x"
  unfolding merge_artifacts_def
  by (induction items arbitrary: s) (simp_all add: merge_artifact_keeps)

lemma process_step_keeps:
  "map_of (artifacts (fst s)) n = Some x \<Longrightarrow> map_of (artifacts (fst (process_step st s))) n = Some x"
proof -
  assume n: "map_of (artifacts (fst s)) n = Some x"
  obtain p t where s: "s = (p, t)" by (cases s)
  have "map_of (artifacts (fst (merge_artifacts items
          (add_messages agent msgs (p\<lparr>current_agent := Some agent\<rparr>, t))))) n = Some x"
    for items agent msgs
    using n s by (intro merge_artifacts_keeps) simp
  then show ?thesis
    by (simp add: process_step_def s Let_def)
qed

lemma consume_keeps:
  "map_of (artifacts (fst s)) n = Some x \<Longrightarrow> map_of (artifacts (fst (snd (consume it s)))) n = Some x"
  by (induction it arbitrary: s) (simp_all add: process_step_keeps)

text \<open>
  C2, as stated, fails: \<^verbatim>\<open>ProjectState.add_artifact\<close> has no test of the name and
  returns nothing. Called twice with one name it keeps the content of the second call.
\<close>

theorem add_artifact_twice_counterexample:
  "map_of (artifacts (fst
       (add_artifact ''schema'' ''second'' ''code'' ''database_developer''
         (add_artifact ''schema'' ''first'' ''document'' ''database_designer''
           (tracker_project, 2))))) ''schema''
     = Some \<lparr>art_content = ''second'', art_type = ''code'',
             art_created_by = ''database_developer'', art_timestamp = 3\<rparr> \<and>
   ''second'' \<noteq> ''first''"
  by (simp add: add_artifact_def tracker_project_def)

text \<open>
  C2, amended. The first write under a name is the one retained, by the guard of the
  engine's loop and not by \<^verbatim>\<open>add_artifact\<close>: merging an item whose name is new stores
  its content; merging a second item under that name is a no-op (no error, and the
  state is exactly as before); and an artifact that is stored stays stored, unchanged,
  through every later step of the run. \<^verbatim>\<open>add_artifact\<close> itself always stores what it is
  given under the name.
\<close>

theorem merge_first_writer_wins:
  "(name \<notin> fst ` set (artifacts (fst s)) \<longrightarrow>
      map_of (artifacts (fst (merge_artifact s (name, a1)))) name =
        Some \<lparr>art_content = dict_get (ad_content a1) '''', art_type = dict_get (ad_type a1) '''',
              art_created_by = dict_get (ad_created_by a1) '''', art_timestamp = snd s\<rparr>) \<and>
   merge_artifact (merge_artifact s (name, a1)) (name, a2) = merge_artifact s (name, a1) \<and>
   (\<forall>x. map_of (artifacts (fst s)) name = Some x \<longrightarrow>
      map_of (artifacts (fst (snd (consume it s)))) name = Some x) \<and>
   map_of (artifacts (fst (add_artifact name c ty ag s))) name =
     Some \<lparr>art_content = c, art_type = ty, art_created_by = ag, art_timestamp = snd s\<rparr>"
proof -
  obtain p t where s: "s = (p, t)" by (cases s)
  have 1: "name \<notin> fst ` set (artifacts (fst s)) \<longrightarrow>
      map_of (artifacts (fst (merge_artifact s (name, a1)))) name =
        Some \<lparr>art_content = dict_get (ad_content a1) '''', art_type = dict_get (ad_type a1) '''',
              art_created_by = dict_get (ad_created_by a1) '''', art_timestamp = snd s\<rparr>"
    by (simp add: s merge_artifact_def add_artifact_def update_conv')
  have "name \<in> fst ` set (artifacts (fst (merge_artifact s (name, a1))))"
    by (simp add: s merge_artifact_def add_artifact_def keys_update)
  then have 2: "merge_artifact (merge_artifact s (name, a1)) (name, a2) = merge_artifact s (name, a1)"
    by (simp add: merge_artifact_def [of "merge_artifact s (name, a1)"])
  have 3: "map_of (artifacts (fst (add_artifact name c ty ag s))) name =
     Some \<lparr>art_content = c, art_type = ty, art_created_by = ag, art_timestamp = snd s\<rparr>"
    by (simp add: s add_artifact_def update_conv')
  from 1 2 3 consume_keeps show ?thesis by blast
qed

theorem merge_first_writer_wins_witness:
  "''schema'' \<notin> fst ` set (artifacts tracker_project) \<and>
   map_of (artifacts (fst (merge_artifact (tracker_project, 2)
          (''schema'', \<lparr>ad_content = Some ''first'', ad_type = Some ''document'',
                        ad_created_by = Some ''database_designer''\<rparr>)))) ''schema''
     = Some \<lparr>art_content = ''first'', art_type = ''document'',
             art_created_by = ''database_designer'', art_timestamp = 2\<rparr> \<and>
   map_of (artifacts (fst (merge_artifact
       (merge_artifact (tracker_project, 2)
          (''schema'', \<lparr>ad_content = Some ''first'', ad_type = Some ''document'',
                        ad_created_by = Some ''database_designer''\<rparr>))
       (''schema'', \<lparr>ad_content = Some ''second'', ad_type = Some ''code'',
                     ad_created_by = Some ''database_developer''\<rparr>)))) ''schema''
     = Some \<lparr>art_content = ''first'', art_type = ''document'',
             art_created_by = ''database_designer'', art_timestamp = 2\<rparr> \<and>
   map_of (artifacts (fst (snd (consume
       (Yield \<lparr>st_current_agent = Some ''database_developer'', st_messages = None,
               st_artifacts = Some [(''schema'',
                  \<lparr>ad_content = Some ''second'', ad_type = Some ''code'',
                   ad_created_by = Some ''database_developer''\<rparr>)],
               st_completed_steps = None\<rparr> Stop)
       (merge_artifact (tracker_project, 2)
          (''schema'', \<lparr>ad_content = Some ''first'', ad_type = Some ''document'',
                        ad_created_by = Some ''database_designer''\<rparr>)))))) ''schema''
     = Some \<lparr>art_content = ''first'', art_type = ''document'',
             art_created_by = ''database_designer'', art_timestamp = 2\<rparr>"
proof -
  let ?a1 = "\<lparr>ad_content = Some ''first'', ad_type = Some ''document'',
              ad_created_by = Some ''database_designer''\<rparr>"
  let ?a2 = "\<lparr>ad_content = Some ''second'', ad_type = Some ''code'',
              ad_created_by = Some ''database_developer''\<rparr>"
  let ?first = "\<lparr>art_content = ''first'', art_type = ''document'',
                 art_created_by = ''database_designer'', art_timestamp = 2\<rparr>"
  let ?s1 = "merge_artifact (tracker_project, 2) (''schema'', ?a1)"
  let ?it = "Yield \<lparr>st_current_agent = Some ''database_developer'', st_messages = None,
               st_artifacts = Some [(''schema'', ?a2)], st_completed_steps = None\<rparr> Stop"
  have new: "''schema'' \<notin> fst ` set (artifacts tracker_project)"
    by (simp add: tracker_project_def)
  from merge_first_writer_wins [of "''schema''" "(tracker_project, 2)" ?a1 ?a2 Stop] new
  have stored: "map_of (artifacts (fst ?s1)) ''schema'' = Some ?first"
    and again: "merge_artifact ?s1 (''schema'', ?a2) = ?s1"
    by (simp_all add: dict_get_def)
  from merge_first_writer_wins [of "''schema''" ?s1 ?a1 ?a2 ?it] stored
  have kept: "map_of (artifacts (fst (snd (consume ?it ?s1)))) ''schema'' = Some ?first"
    by blast
  from new stored again kept show ?thesis by simp
qed

section \<open>The engine's run\<close>

lemma progress_status_not_completed: "progress_status k \<noteq> ''completed''"
  by (simp add: progress_status_def)

lemma progress_status_not_error: "progress_status k \<noteq> ''error''"
  by (simp add: progress_status_def)

lemma consume_eq: "consume it s = (raised it, foldl (\<lambda>s st. process_step st s) s (yielded it))"
  by (induction it arbitrary: s) simp_all

lemma run_workflow_phases:
  "completed_phases (run_workflow i r fresh) = steps \<and> errors (run_workflow i r fresh) = [] \<and>
   current_phase (run_workflow i r fresh) = ''project_completion''"
  by (simp add: run_workflow_def steps_def run_phase_def WorkflowState_init_def)

lemma workflow_body_raised:
  assumes "raised (py_iter obj) = Some (Exception e)"
    and "foldl (\<lambda>s st. process_step st s) (update_status ''running'' (p, t)) (yielded (py_iter obj)) = (p1, t1)"
  shows "workflow_body obj (p, t) =
     (None, p1\<lparr>messages := messages p1 @
          [\<lparr>msg_sender = ''System'', msg_content = ''Error: '' @ e, msg_timestamp = t1\<rparr>],
        status := ''error''\<rparr>, Suc t1)"
  using assms by (simp add: workflow_body_def consume_eq add_message_def update_status_def)


lemma workflow_body_stopped:
  assumes "raised (py_iter obj) = None"
    and "foldl (\<lambda>s st. process_step st s) (update_status ''running'' (p, t)) (yielded (py_iter obj)) = (p1, t1)"
  shows "workflow_body obj (p, t) =
     (None, p1\<lparr>result := Some ''Project completed successfully.'', status := ''completed'',
        completed_at := Some t1\<rparr>, Suc t1)"
  using assms by (simp add: workflow_body_def consume_eq update_status_def)

lemma failed_world_reached: "run_project_workflow ''u1'' ''p1'' tracker_world = Inr failed_world"
  by (simp add: run_project_workflow_def run_project_workflow_with_def tracker_world_eq
      failed_world_def failed_project_def tracker_project_def workflow_body_def
      update_status_def add_message_def)

lemma completed_world_reached:
  "run_project_workflow_with (\<lambda>i r. StepIterator Stop) ''p1'' tracker_world = Inr completed_world"
  by (simp add: run_project_workflow_with_def tracker_world_eq
      completed_world_def completed_project_def tracker_project_def workflow_body_def
      update_status_def)


lemma completed_world_p1: "active_projects completed_world ''p1'' = Some completed_project"
  by (simp add: completed_world_def)



text \<open>
  C1 (the code departs from it). \<^verbatim>\<open>run_workflow\<close> runs its seven phases without an
  error and returns a \<^verbatim>\<open>WorkflowState\<close>, which is not iterable; the \<^verbatim>\<open>for\<close>
  statement of the engine raises on it, and the handler records the error. So for every
  registered project the run ends in status \<^verbatim>\<open>error\<close>, with the completion time and
  the result as they were before the run (unset, for a project just started), instead
  of status \<^verbatim>\<open>completed\<close>.
\<close>

theorem run_project_workflow_ends_in_error:
  assumes "active_projects w pid = Some p"
  shows "completed_phases (run_workflow pid (requirements p) fresh) = steps \<and>
         errors (run_workflow pid (requirements p) fresh) = [] \<and>
         run_project_workflow fresh pid w =
           Inr (w\<lparr>active_projects := (active_projects w)(pid \<mapsto>
                   p\<lparr>messages := messages p @
                        [\<lparr>msg_sender = ''System'',
                          msg_content = ''Error: '' @ not_iterable ''WorkflowState'',
                          msg_timestamp = clock w\<rparr>],
                     status := ''error''\<rparr>),
                 clock := Suc (clock w)\<rparr>)"
proof -
  have "workflow_body (WorkflowStateObj (run_workflow pid (requirements p) fresh)) (p, clock w) =
      (None, p\<lparr>status := ''running''\<rparr>\<lparr>messages := messages (p\<lparr>status := ''running''\<rparr>) @
            [\<lparr>msg_sender = ''System'',
              msg_content = ''Error: '' @ not_iterable ''WorkflowState'',
              msg_timestamp = clock w\<rparr>],
          status := ''error''\<rparr>, Suc (clock w))"
    by (rule workflow_body_raised) (simp_all add: update_status_def)
  with assms run_workflow_phases [of pid "requirements p" fresh] show ?thesis
    by (simp add: run_project_workflow_def run_project_workflow_with_def)
qed

theorem run_project_workflow_ends_in_error_witness:
  "active_projects tracker_world ''p1'' = Some tracker_project \<and>
   completed_phases (run_workflow ''p1'' ''Build a task tracker'' ''u1'') = steps \<and>
   run_project_workflow ''u1'' ''p1'' tracker_world = Inr failed_world \<and>
   status failed_project = ''error'' \<and> completed_at failed_project = None \<and>
   result failed_project = None"
proof -
  have "completed_phases (run_workflow ''p1'' (requirements tracker_project) ''u1'') = steps"
    using run_project_workflow_ends_in_error [OF tracker_world_p1, of "''u1''"] by blast
  then show ?thesis
    by (simp add: tracker_world_p1 failed_world_reached failed_project_def tracker_project_def)
qed




section \<open>The engine's writes in order, and posting a message\<close>

lemma run_trace_last: "last (s # run_trace f s xs) = foldl f s xs"
  by (induction xs arbitrary: s) simp_all

lemma run_trace_status:
  assumes "\<And>s x. status (fst (f s x)) = status (fst s)"
  shows "\<forall>y \<in> set (run_trace f s xs). status (fst y) = status (fst s)"
  by (induction xs arbitrary: s) (simp_all add: assms)

lemma foldl_status:
  assumes "\<And>s x. status (fst (f s x)) = status (fst s)"
  shows "status (fst (foldl f s xs)) = status (fst s)"
  by (induction xs arbitrary: s) (simp_all add: assms)

lemma add_new_message_status: "status (fst (add_new_message agent s msg)) = status (fst s)"
  by (simp add: add_new_message_def add_message_def split: prod.splits)

lemma merge_artifact_status: "status (fst (merge_artifact s item)) = status (fst s)"
  by (simp add: merge_artifact_def add_artifact_def split: prod.splits)

lemma add_messages_status: "status (fst (add_messages agent msgs s)) = status (fst s)"
  by (simp add: add_messages_def foldl_status add_new_message_status)

lemma merge_artifacts_status: "status (fst (merge_artifacts items s)) = status (fst s)"
  by (simp add: merge_artifacts_def foldl_status merge_artifact_status)

lemma update_status_status: "status (fst (update_status st s)) = st"
  by (simp add: update_status_def split: prod.splits)

lemma process_step_trace_last: "last (process_step_trace st s) = process_step st s"
proof -
  define agent where "agent = dict_get (st_current_agent st) ''''"
  define s1 where "s1 = (case s of (p, t) \<Rightarrow> (p\<lparr>current_agent := Some agent\<rparr>, t))"
  define msgs where "msgs = dict_get (st_messages st) []"
  define items where "items = dict_get (st_artifacts st) []"
  define s2 where "s2 = add_messages agent msgs s1"
  define s3 where "s3 = merge_artifacts items s2"
  define cs where "cs = dict_get (st_completed_steps st) []"
  define cnd where "cnd \<longleftrightarrow> msgs \<noteq> [] \<and> length (messages (fst s1)) < length msgs"
  define tm where "tm = (if cnd
            then run_trace (add_new_message agent) s1 (drop (length (messages (fst s1))) msgs)
            else [])"
  have tr: "process_step_trace st s =
      [s1] @ tm @ run_trace merge_artifact s2 items
        @ (if cs \<noteq> [] then [update_status (progress_status (length cs)) s3] else [])"
    by (simp add: process_step_trace_def Let_def agent_def s1_def msgs_def items_def s2_def
        s3_def cs_def tm_def cnd_def)
  have ps: "process_step st s =
      (if cs \<noteq> [] then update_status (progress_status (length cs)) s3 else s3)"
    by (simp add: process_step_def Let_def agent_def s1_def msgs_def items_def s2_def
        s3_def cs_def)
  have m: "last (s1 # tm) = s2"
  proof -
    have s2: "s2 = (if cnd then foldl (add_new_message agent) s1
        (drop (length (messages (fst s1))) msgs) else s1)"
      by (simp add: s2_def add_messages_def cnd_def)
    show ?thesis
    proof (cases cnd)
      case True
      then show ?thesis unfolding s2 tm_def by (simp only: run_trace_last if_True)
    next
      case False
      then show ?thesis unfolding s2 tm_def by simp
    qed
  qed
  have a: "last (s2 # run_trace merge_artifact s2 items) = s3"
    unfolding s3_def merge_artifacts_def by (rule run_trace_last)
  define pre where "pre = [s1] @ tm @ run_trace merge_artifact s2 items"
  have pre: "last pre = s3"
  proof (cases "run_trace merge_artifact s2 items = []")
    case True
    with a m show ?thesis by (simp add: pre_def)
  next
    case False
    with a show ?thesis by (simp add: pre_def)
  qed
  have tr': "process_step_trace st s =
      pre @ (if cs \<noteq> [] then [update_status (progress_status (length cs)) s3] else [])"
    unfolding tr pre_def by simp
  show ?thesis
  proof (cases "cs = []")
    case True
    with pre show ?thesis unfolding tr' ps by simp
  next
    case False
    then show ?thesis unfolding tr' ps by simp
  qed
qed

lemma process_step_trace_nonterminal:
  assumes "status (fst s) \<noteq> ''completed''" and "status (fst s) \<noteq> ''error''"
  shows "\<forall>y \<in> set (process_step_trace st s).
           status (fst y) \<noteq> ''completed'' \<and> status (fst y) \<noteq> ''error''"
proof -
  define agent where "agent = dict_get (st_current_agent st) ''''"
  define s1 where "s1 = (case s of (p, t) \<Rightarrow> (p\<lparr>current_agent := Some agent\<rparr>, t))"
  define msgs where "msgs = dict_get (st_messages st) []"
  define items where "items = dict_get (st_artifacts st) []"
  define s2 where "s2 = add_messages agent msgs s1"
  define s3 where "s3 = merge_artifacts items s2"
  define cs where "cs = dict_get (st_completed_steps st) []"
  define cnd where "cnd \<longleftrightarrow> msgs \<noteq> [] \<and> length (messages (fst s1)) < length msgs"
  define tm where "tm = (if cnd
            then run_trace (add_new_message agent) s1 (drop (length (messages (fst s1))) msgs)
            else [])"
  have tr: "process_step_trace st s =
      [s1] @ tm @ run_trace merge_artifact s2 items
        @ (if cs \<noteq> [] then [update_status (progress_status (length cs)) s3] else [])"
    by (simp add: process_step_trace_def Let_def agent_def s1_def msgs_def items_def s2_def
        s3_def cs_def tm_def cnd_def)
  have 1: "status (fst s1) = status (fst s)"
    by (simp add: s1_def split: prod.splits)
  have 2: "\<forall>y \<in> set tm. status (fst y) = status (fst s)"
  proof (cases cnd)
    case True
    then have "tm = run_trace (add_new_message agent) s1 (drop (length (messages (fst s1))) msgs)"
      by (simp add: tm_def)
    moreover have "\<forall>y \<in> set (run_trace (add_new_message agent) s1
          (drop (length (messages (fst s1))) msgs)). status (fst y) = status (fst s1)"
      by (rule run_trace_status) (rule add_new_message_status)
    ultimately show ?thesis by (simp only: 1)
  next
    case False
    then show ?thesis by (simp add: tm_def)
  qed
  have "status (fst s2) = status (fst s)"
    by (simp add: s2_def add_messages_status 1)
  moreover have "\<forall>y \<in> set (run_trace merge_artifact s2 items). status (fst y) = status (fst s2)"
    by (rule run_trace_status) (rule merge_artifact_status)
  ultimately have 3: "\<forall>y \<in> set (run_trace merge_artifact s2 items). status (fst y) = status (fst s)"
    by (simp only:)
  have 4: "status (fst (update_status (progress_status (length cs)) s3)) \<noteq> ''completed'' \<and>
      status (fst (update_status (progress_status (length cs)) s3)) \<noteq> ''error''"
    by (simp add: update_status_status progress_status_not_completed progress_status_not_error)
  from assms 1 2 3 4 show ?thesis
    unfolding tr by auto
qed

lemma process_step_nonterminal:
  assumes "status (fst s) \<noteq> ''completed''" and "status (fst s) \<noteq> ''error''"
  shows "status (fst (process_step st s)) \<noteq> ''completed'' \<and>
         status (fst (process_step st s)) \<noteq> ''error''"
proof -
  have "process_step_trace st s \<noteq> []"
    by (simp add: process_step_trace_def Let_def)
  then have "last (process_step_trace st s) \<in> set (process_step_trace st s)"
    by (rule last_in_set)
  with process_step_trace_nonterminal [OF assms, of st] show ?thesis
    by (simp add: process_step_trace_last)
qed

lemma consume_trace_last: "last (s # consume_trace it s) = snd (consume it s)"
proof (induction it arbitrary: s)
  case (Yield st rest)
  have ne: "process_step_trace st s \<noteq> []"
    by (simp add: process_step_trace_def Let_def)
  have "last (s # process_step_trace st s @ consume_trace rest (process_step st s))
      = last (process_step st s # consume_trace rest (process_step st s))"
  proof (cases "consume_trace rest (process_step st s) = []")
    case True
    with ne show ?thesis by (simp add: process_step_trace_last)
  next
    case False
    then show ?thesis by simp
  qed
  with Yield.IH [of "process_step st s"] show ?case by simp
qed simp_all

lemma consume_trace_nonterminal:
  assumes "status (fst s) \<noteq> ''completed''" and "status (fst s) \<noteq> ''error''"
  shows "(\<forall>y \<in> set (consume_trace it s).
            status (fst y) \<noteq> ''completed'' \<and> status (fst y) \<noteq> ''error'') \<and>
         status (fst (snd (consume it s))) \<noteq> ''completed'' \<and>
         status (fst (snd (consume it s))) \<noteq> ''error''"
  using assms
proof (induction it arbitrary: s)
  case (Yield st rest)
  from process_step_nonterminal [OF Yield.prems, of st]
  have "(\<forall>y \<in> set (consume_trace rest (process_step st s)).
            status (fst y) \<noteq> ''completed'' \<and> status (fst y) \<noteq> ''error'') \<and>
         status (fst (snd (consume rest (process_step st s)))) \<noteq> ''completed'' \<and>
         status (fst (snd (consume rest (process_step st s)))) \<noteq> ''error''"
    by (intro Yield.IH) simp_all
  with process_step_trace_nonterminal [OF Yield.prems, of st] show ?case
    by auto
qed simp_all

lemma workflow_trace_last: "last (workflow_trace obj s) = snd (workflow_body obj s)"
proof -
  define s0 where "s0 = update_status ''running'' s"
  obtain r p t where c: "consume (py_iter obj) s0 = (r, p, t)"
    by (cases "consume (py_iter obj) s0") auto
  show ?thesis
  proof (cases r)
    case None
    with c show ?thesis
      by (simp add: workflow_trace_def workflow_body_def s0_def)
  next
    case (Some x)
    show ?thesis
    proof (cases x)
      case (Exception e)
      with Some c show ?thesis
        by (simp add: workflow_trace_def workflow_body_def s0_def)
    next
      case (BaseException e)
      have "last (s0 # consume_trace (py_iter obj) s0) = (p, t)"
        using consume_trace_last [of s0 "py_iter obj"] c by simp
      with BaseException Some c show ?thesis
        by (simp add: workflow_trace_def workflow_body_def s0_def)
    qed
  qed
qed

lemma workflow_trace_butlast:
  "\<forall>y \<in> set (butlast (workflow_trace obj s)).
     status (fst y) \<noteq> ''completed'' \<and> status (fst y) \<noteq> ''error''"
proof -
  define s0 where "s0 = update_status ''running'' s"
  have s0: "status (fst s0) \<noteq> ''completed''" "status (fst s0) \<noteq> ''error''"
    by (simp_all add: s0_def update_status_status)
  note ct = consume_trace_nonterminal [OF s0, of "py_iter obj"]
  obtain r p t where c: "consume (py_iter obj) s0 = (r, p, t)"
    by (cases "consume (py_iter obj) s0") auto
  with ct have pt: "status p \<noteq> ''completed''" "status p \<noteq> ''error''" by simp_all
  show ?thesis
  proof (cases r)
    case None
    with c have "butlast (workflow_trace obj s) =
        s0 # consume_trace (py_iter obj) s0
          @ [(p\<lparr>result := Some ''Project completed successfully.''\<rparr>, t)]"
      by (simp add: workflow_trace_def s0_def butlast_append)
    with s0 ct pt show ?thesis by auto
  next
    case (Some x)
    show ?thesis
    proof (cases x)
      case (Exception e)
      with Some c have "butlast (workflow_trace obj s) =
          s0 # consume_trace (py_iter obj) s0
            @ [add_message ''System'' (''Error: '' @ e) None (p, t)]"
        by (simp add: workflow_trace_def s0_def butlast_append)
      moreover have "status (fst (add_message ''System'' (''Error: '' @ e) None (p, t))) = status p"
        by (simp add: add_message_def)
      ultimately show ?thesis using s0 ct pt by auto
    next
      case (BaseException e)
      with Some c have "workflow_trace obj s = s0 # consume_trace (py_iter obj) s0"
        by (simp add: workflow_trace_def s0_def)
      then have "set (butlast (workflow_trace obj s)) \<subseteq> set (s0 # consume_trace (py_iter obj) s0)"
        by (metis in_set_butlastD subsetI)
      with s0 ct show ?thesis by auto
    qed
  qed
qed

lemma repo_trace:
  "workflow_trace (WorkflowStateObj ws) (p, t) =
     [(p\<lparr>status := ''running''\<rparr>, t),
      (p\<lparr>messages := messages p @
           [\<lparr>msg_sender = ''System'', msg_content = ''Error: '' @ not_iterable ''WorkflowState'',
             msg_timestamp = t\<rparr>],
         status := ''running''\<rparr>, Suc t),
      (p\<lparr>messages := messages p @
           [\<lparr>msg_sender = ''System'', msg_content = ''Error: '' @ not_iterable ''WorkflowState'',
             msg_timestamp = t\<rparr>],
         status := ''error''\<rparr>, Suc t)]"
  by (simp add: workflow_trace_def update_status_def add_message_def)

text \<open>
  C4, as stated, fails: \<^verbatim>\<open>send_message\<close> does not look at the status. A project that
  the engine has left in status \<^verbatim>\<open>completed\<close>, and one it has left in its error
  status, both get the posted message appended to their log.
\<close>

theorem send_message_terminal_counterexample:
  "run_project_workflow_with (\<lambda>i r. StepIterator Stop) ''p1'' tracker_world = Inr completed_world \<and>
   run_project_workflow ''u1'' ''p1'' tracker_world = Inr failed_world \<and>
   status completed_project = ''completed'' \<and>
   active_projects (snd (send_message (Some ''p1'') (Some ''One more thing'') completed_world)) ''p1''
     = Some (completed_project\<lparr>messages := messages completed_project @
         [\<lparr>msg_sender = ''User'', msg_content = ''One more thing'', msg_timestamp = 3\<rparr>]\<rparr>) \<and>
   status failed_project = ''error'' \<and>
   active_projects (snd (send_message (Some ''p1'') (Some ''One more thing'') failed_world)) ''p1''
     = Some (failed_project\<lparr>messages := messages failed_project @
         [\<lparr>msg_sender = ''User'', msg_content = ''One more thing'', msg_timestamp = 3\<rparr>]\<rparr>)"
  by (simp add: completed_world_reached failed_world_reached)
    (simp add: send_message_def py_not_def add_message_def completed_world_def failed_world_def
      completed_project_def failed_project_def)

text \<open>
  C4, amended. The engine writes a terminal status (\<^verbatim>\<open>completed\<close> or \<^verbatim>\<open>error\<close>) only
  as the last statement of its run: in the list of the states the project passes through
  during the run, every state before the last has another status, and the last state is
  the one the run leaves. So once a terminal status is set the engine executes no stage
  and adds no message or artifact. The message-posting operation is not gated on the
  status: for a registered project and a non-empty message it appends exactly one
  \<^verbatim>\<open>User\<close> message to the log, whatever the status, and changes nothing else: status,
  artifacts, current agent, completion time and result of that project and every other
  project stay as they were.
\<close>

theorem send_message_appends_only:
  assumes "active_projects w i = Some p" and "i \<noteq> []" and "m \<noteq> []"
  shows "fst (send_message (Some i) (Some m) w) = Inr (''success'', ''Message received'') \<and>
         active_projects (snd (send_message (Some i) (Some m) w)) i =
           Some (p\<lparr>messages := messages p @
              [\<lparr>msg_sender = ''User'', msg_content = m, msg_timestamp = clock w\<rparr>]\<rparr>) \<and>
         (\<forall>j. j \<noteq> i \<longrightarrow>
            active_projects (snd (send_message (Some i) (Some m) w)) j = active_projects w j) \<and>
         last (workflow_trace obj s) = snd (workflow_body obj s) \<and>
         (\<forall>y \<in> set (butlast (workflow_trace obj s)).
            status (fst y) \<noteq> ''completed'' \<and> status (fst y) \<noteq> ''error'')"
proof -
  have "fst (send_message (Some i) (Some m) w) = Inr (''success'', ''Message received'') \<and>
         active_projects (snd (send_message (Some i) (Some m) w)) i =
           Some (p\<lparr>messages := messages p @
              [\<lparr>msg_sender = ''User'', msg_content = m, msg_timestamp = clock w\<rparr>]\<rparr>) \<and>
         (\<forall>j. j \<noteq> i \<longrightarrow>
            active_projects (snd (send_message (Some i) (Some m) w)) j = active_projects w j)"
    using assms by (simp add: send_message_def py_not_def add_message_def)
  with workflow_trace_last [of obj s] workflow_trace_butlast [of obj s] show ?thesis
    by blast
qed

theorem send_message_appends_only_witness:
  "active_projects completed_world ''p1'' = Some completed_project \<and>
   fst (send_message (Some ''p1'') (Some ''One more thing'') completed_world)
     = Inr (''success'', ''Message received'') \<and>
   status (the (active_projects
       (snd (send_message (Some ''p1'') (Some ''One more thing'') completed_world)) ''p1''))
     = ''completed'' \<and>
   map (\<lambda>y. status (fst y))
     (butlast (workflow_trace (WorkflowStateObj (run_workflow ''p1'' ''Build a task tracker'' ''u1''))
        (tracker_project, 2))) = [''running'', ''running''] \<and>
   status (fst (last (workflow_trace
        (WorkflowStateObj (run_workflow ''p1'' ''Build a task tracker'' ''u1''))
        (tracker_project, 2)))) = ''error''"
proof -
  let ?obj = "WorkflowStateObj (run_workflow ''p1'' ''Build a task tracker'' ''u1'')"
  note inst = send_message_appends_only [of completed_world "''p1''" completed_project
      "''One more thing''" ?obj "(tracker_project, 2)"]
  have tr: "map (\<lambda>y. status (fst y)) (butlast (workflow_trace ?obj (tracker_project, 2)))
      = [''running'', ''running'']"
    by (simp add: repo_trace)
  from inst have "last (workflow_trace ?obj (tracker_project, 2)) = snd (workflow_body ?obj (tracker_project, 2))"
    by (simp add: completed_world_p1)
  moreover have "status (fst (snd (workflow_body ?obj (tracker_project, 2)))) = ''error''"
    by (simp add: workflow_body_def update_status_def add_message_def)
  ultimately have l: "status (fst (last (workflow_trace ?obj (tracker_project, 2)))) = ''error''"
    by simp
  from inst tr l show ?thesis
    by (simp add: completed_world_p1 completed_project_def)
qed

section \<open>Progress: the binary64 computation, and what the engine publishes\<close>

lemma pow2_powi: "pow2 e = 2 powi e"
  by (simp add: pow2_def power_int_def field_simps)

lemma pow2_pos: "0 < pow2 e"
  by (simp add: pow2_powi)

lemma pow2_add: "pow2 (a + b) = pow2 a * pow2 b"
  by (simp add: pow2_powi power_int_add)

lemma pow2_nat: "pow2 (int n) = 2 ^ n"
  by (simp add: pow2_def)

lemma pow2_neg_nat: "pow2 (- int n) = 1 / 2 ^ n"
  by (simp add: pow2_powi power_int_minus field_simps)

lemma ilog2_bounds: "0 < n \<Longrightarrow> 2 ^ ilog2 n \<le> n \<and> n < 2 ^ Suc (ilog2 n)"
proof (induction n rule: ilog2.induct)
  case (1 n)
  show ?case
  proof (cases "n < 2")
    case True
    with "1.prems" show ?thesis by (simp add: ilog2.simps [of n])
  next
    case False
    then have "0 < n div 2" by simp
    with "1.IH" False have ih: "2 ^ ilog2 (n div 2) \<le> n div 2" "n div 2 < 2 ^ Suc (ilog2 (n div 2))"
      by simp_all
    have eq: "ilog2 n = Suc (ilog2 (n div 2))"
      using False by (simp add: ilog2.simps [of n])
    have "2 * (n div 2) \<le> n" and "n < 2 * (n div 2) + 2"
      by presburger+
    moreover from ih have "n div 2 < 2 * 2 ^ ilog2 (n div 2)"
      by simp
    ultimately have "2 * 2 ^ ilog2 (n div 2) \<le> n" and "n < 2 * (2 * 2 ^ ilog2 (n div 2))"
      using ih(1) by linarith+
    then show ?thesis unfolding eq by (simp only: power_Suc)
  qed
qed

lemma round_half_even_err: "\<bar>of_int (round_half_even y) - y\<bar> \<le> 1 / 2"
proof -
  have lo: "of_int \<lfloor>y\<rfloor> \<le> y" and hi: "y < of_int \<lfloor>y\<rfloor> + 1"
    by linarith+
  consider "y - of_int \<lfloor>y\<rfloor> < 1 / 2" | "1 / 2 < y - of_int \<lfloor>y\<rfloor>"
    | "y - of_int \<lfloor>y\<rfloor> = 1 / 2" by linarith
  then show ?thesis
  proof cases
    case 1
    with lo show ?thesis by (simp add: round_half_even_def Let_def abs_le_iff)
  next
    case 2
    with hi show ?thesis by (simp add: round_half_even_def Let_def abs_le_iff)
  next
    case 3
    then show ?thesis by (simp add: round_half_even_def Let_def abs_le_iff)
  qed
qed

lemma round_half_even_int: "round_half_even (of_int z) = z"
  by (simp add: round_half_even_def)


lemma ilog2_bounds_rat:
  assumes "0 < n"
  shows "(2::rat) ^ ilog2 n \<le> of_nat n" and "(of_nat n :: rat) + 1 \<le> 2 ^ Suc (ilog2 n)"
proof -
  from ilog2_bounds [OF assms] have a: "2 ^ ilog2 n \<le> n" and b: "Suc n \<le> 2 ^ Suc (ilog2 n)"
    by simp_all
  from a have "(of_nat (2 ^ ilog2 n) :: rat) \<le> of_nat n" by (rule of_nat_mono)
  then show "(2::rat) ^ ilog2 n \<le> of_nat n" by simp
  from b have "(of_nat (Suc n) :: rat) \<le> of_nat (2 ^ Suc (ilog2 n))" by (rule of_nat_mono)
  then show "(of_nat n :: rat) + 1 \<le> 2 ^ Suc (ilog2 n)" by (simp add: add.commute)
qed

lemma float_exponent_bounds:
  assumes "0 < x"
  shows "pow2 (float_exponent x) \<le> x \<and> x < pow2 (float_exponent x + 1)"
proof (cases "1 \<le> x")
  case True
  let ?n = "nat \<lfloor>x\<rfloor>"
  from True have n: "0 < ?n" by simp
  have fl: "rat_of_int \<lfloor>x\<rfloor> = of_nat ?n"
    using True by simp
  note ilog2_bounds_rat [OF n]
  moreover have "of_nat ?n \<le> x" and "x < of_nat ?n + 1"
    using fl by linarith+
  ultimately have "(2::rat) ^ ilog2 ?n \<le> x" and "x < 2 ^ Suc (ilog2 ?n)"
    by linarith+
  moreover have "float_exponent x = int (ilog2 ?n)"
    using True by (simp add: float_exponent_def)
  moreover have "int (ilog2 ?n) + 1 = int (Suc (ilog2 ?n))" by simp
  ultimately show ?thesis
    by (simp only: pow2_nat)
next
  case False
  let ?m = "nat (\<lceil>1 / x\<rceil> - 1)"
  from False assms have y: "1 < 1 / x" by simp
  then have c: "2 \<le> \<lceil>1 / x\<rceil>" by linarith
  then have m: "0 < ?m" by simp
  have "0 \<le> \<lceil>1 / x\<rceil> - 1" using c by linarith
  then have "(of_nat ?m :: rat) = of_int (\<lceil>1 / x\<rceil> - 1)"
    by (rule of_nat_nat)
  then have cm: "rat_of_int \<lceil>1 / x\<rceil> = of_nat ?m + 1"
    by (simp only: of_int_diff of_int_1)
  note ilog2_bounds_rat [OF m]
  moreover have "1 / x \<le> of_nat ?m + 1" and "of_nat ?m < 1 / x"
    using cm by linarith+
  ultimately have up: "1 / x \<le> 2 ^ Suc (ilog2 ?m)" and lo: "2 ^ ilog2 ?m < 1 / x"
    by linarith+
  from up assms have 1: "1 / 2 ^ Suc (ilog2 ?m) \<le> x"
    by (simp add: field_simps)
  from lo assms have 2: "x < 1 / 2 ^ ilog2 ?m"
    by (simp add: field_simps)
  have e: "float_exponent x = - int (Suc (ilog2 ?m))"
    using False by (simp add: float_exponent_def)
  have e1: "float_exponent x + 1 = - int (ilog2 ?m)"
    unfolding e by simp
  show ?thesis
    unfolding e1 unfolding e using 1 2 by (simp only: pow2_neg_nat)
qed

lemma pow2_minus1: "pow2 (e - 1) = pow2 e / 2"
  by (simp add: pow2_powi power_int_diff)

lemma pow2_diff_nat: "pow2 (e - int n) = pow2 e / 2 ^ n"
  by (simp add: pow2_powi power_int_diff)

lemma fl64_error:
  assumes "0 < x"
  shows "\<bar>fl64 x - x\<bar> \<le> x / 2 ^ 53"
proof -
  define e where "e = float_exponent x"
  define u where "u = pow2 (e - 52)"
  have u: "0 < u" by (simp add: u_def pow2_pos)
  from float_exponent_bounds [OF assms] have ex: "pow2 e \<le> x" by (simp add: e_def)
  have fl: "fl64 x = of_int (round_half_even (x / u)) * u"
    using assms by (simp add: fl64_def Let_def e_def u_def)
  have "\<bar>of_int (round_half_even (x / u)) - x / u\<bar> * u \<le> 1 / 2 * u"
    using round_half_even_err [of "x / u"] u by (intro mult_right_mono) simp_all
  moreover have "\<bar>of_int (round_half_even (x / u)) - x / u\<bar> * u = \<bar>fl64 x - x\<bar>"
  proof -
    have "\<bar>of_int (round_half_even (x / u)) - x / u\<bar> * u
        = \<bar>(of_int (round_half_even (x / u)) - x / u) * u\<bar>"
      using u by (simp add: abs_mult)
    also have "(of_int (round_half_even (x / u)) - x / u) * u = fl64 x - x"
      using u by (simp add: fl left_diff_distrib)
    finally show ?thesis .
  qed
  ultimately have "\<bar>fl64 x - x\<bar> \<le> u / 2" by simp
  also have "u / 2 = pow2 e / 2 ^ 53"
    using pow2_diff_nat [of e 52] by (simp add: u_def)
  also have "\<dots> \<le> x / 2 ^ 53"
    using ex by (simp add: divide_right_mono)
  finally show ?thesis .
qed

lemma fl64_nat_exact:
  assumes "n < 2 ^ 53"
  shows "fl64 (of_nat n) = of_nat n"
proof (cases "n = 0")
  case True
  then show ?thesis by (simp add: fl64_def)
next
  case False
  then have n: "0 < n" by simp
  then have x: "(1::rat) \<le> of_nat n" by simp
  have fl: "nat \<lfloor>(of_nat n :: rat)\<rfloor> = n" by simp
  have e: "float_exponent (of_nat n) = int (ilog2 n)"
    using x by (simp add: float_exponent_def)
  from ilog2_bounds [OF n] assms have lt: "(2::nat) ^ ilog2 n < 2 ^ 53" by linarith
  have "ilog2 n < 53"
  proof (rule ccontr)
    assume "\<not> ilog2 n < 53"
    then have "53 \<le> ilog2 n" by simp
    then have "(2::nat) ^ 53 \<le> 2 ^ ilog2 n" by (rule power_increasing) simp
    with lt show False by linarith
  qed
  then have le: "ilog2 n \<le> 52" by simp
  define d where "d = 52 - ilog2 n"
  have "int (ilog2 n) - 52 = - int d" using le by (simp add: d_def)
  then have u: "pow2 (float_exponent (of_nat n) - 52) = 1 / 2 ^ d"
    by (simp add: e pow2_neg_nat)
  have "(of_nat n :: rat) / (1 / 2 ^ d) = of_int (int (n * 2 ^ d))" by simp
  then have "round_half_even ((of_nat n :: rat) / (1 / 2 ^ d)) = int (n * 2 ^ d)"
    by (simp only: round_half_even_int)
  then have "fl64 (of_nat n) = of_int (int (n * 2 ^ d)) * (1 / 2 ^ d)"
    using n by (simp add: fl64_def Let_def u)
  then show ?thesis by simp
qed

lemma length_workflow_steps: "length workflow_steps = 7"
  by (simp add: workflow_steps_def)

lemma progress_exact:
  assumes "k < 2 ^ 32"
  shows "py_int (progress_of k) = int (100 * k div 7)"
proof (cases "7 dvd k")
  case True
  then obtain m where k: "k = 7 * m" by (elim dvdE)
  with assms have m: "m < 2 ^ 53" and m100: "100 * m < 2 ^ 53" by simp_all
  have "(of_nat k :: rat) / 7 = of_nat m" by (simp add: k)
  then have "fl64 (of_nat k / 7) = of_nat m"
    using fl64_nat_exact [OF m] by simp
  then have "fl64 (of_nat k / 7) * 100 = of_nat (100 * m)" by simp
  then have "progress_of k = of_nat (100 * m)"
    using fl64_nat_exact [OF m100] by (simp only: progress_of_def length_workflow_steps of_nat_numeral)
  then have "progress_of k = of_int (int (100 * m))" by simp
  then have "py_int (progress_of k) = int (100 * m)"
    unfolding py_int_def by (simp only: floor_of_int of_int_0_le_iff) simp
  moreover have "100 * k div 7 = 100 * m" by (simp add: k)
  ultimately show ?thesis by simp
next
  case False
  define K :: rat where "K = of_nat k"
  define q where "q = fl64 (K / 7)"
  define p where "p = fl64 (q * 100)"
  define N where "N = 100 * k div 7"
  define r where "r = 100 * k mod 7"
  have "coprime (7::nat) 100" by code_simp
  with False have "\<not> 7 dvd 100 * k"
    by (simp add: coprime_dvd_mult_right_iff)
  then have r1: "1 \<le> r" by (simp add: r_def dvd_eq_mod_eq_0)
  have r6: "r \<le> 6" by (simp add: r_def)
  have "100 * k = 7 * N + r" by (simp add: N_def r_def)
  then have "of_nat (100 * k) = (of_nat (7 * N + r) :: rat)" by simp
  then have split: "100 * K = 7 * of_nat N + of_nat r" by (simp add: K_def)
  from r1 r6 have R: "(1::rat) \<le> of_nat r" "(of_nat r :: rat) \<le> 6" by simp_all
  from False have "0 < k" by (cases k) simp_all
  then have K0: "0 < K" by (simp add: K_def)
  from assms have "(of_nat k :: rat) < of_nat (2 ^ 32)" by (simp only: of_nat_less_iff)
  then have K32: "K < 4294967296" by (simp add: K_def)
  from fl64_error [of "K / 7"] K0 have "\<bar>q - K / 7\<bar> \<le> K / 7 / 2 ^ 53"
    by (simp add: q_def)
  then have q: "\<bar>q - K / 7\<bar> \<le> K / 63050394783186944" by simp
  then have q0: "0 < q" using K0 by linarith
  then have "0 < q * 100" by simp
  from fl64_error [OF this] have "\<bar>p - q * 100\<bar> \<le> q * 100 / 2 ^ 53"
    by (simp add: p_def)
  then have pq: "\<bar>p - q * 100\<bar> \<le> q * 100 / 9007199254740992" by simp
  from q pq K0 K32 split R have "of_nat N \<le> p" and "p < of_nat N + 1"
    by linarith+
  then have "\<lfloor>p\<rfloor> = int N" by linarith
  moreover have "0 \<le> p" using \<open>of_nat N \<le> p\<close> of_nat_0_le_iff [of N, where ?'a = rat] by linarith
  moreover have "progress_of k = p"
    by (simp add: progress_of_def length_workflow_steps p_def q_def K_def)
  ultimately show ?thesis by (simp add: py_int_def N_def)
qed

lemma progress_status_exact:
  assumes "k < 2 ^ 32"
  shows "progress_status k = ''In progress - '' @ str_nat (100 * k div 7) @ ''% complete''"
  by (simp add: progress_status_def progress_exact [OF assms] py_str_def)

lemma str_nat_values:
  "str_nat 14 = ''14''" "str_nat 28 = ''28''" "str_nat 42 = ''42''" "str_nat 57 = ''57''"
  "str_nat 71 = ''71''" "str_nat 85 = ''85''" "str_nat 100 = ''100''"
  by code_simp+

lemma repo_trace_statuses:
  assumes "active_projects w pid = Some p"
  shows "map (\<lambda>y. status (fst y)) (run_project_workflow_trace fresh pid w)
           = [''running'', ''running'', ''error'']"
  using assms by (simp add: run_project_workflow_trace_def repo_trace)

lemma repo_trace_result:
  assumes "active_projects w pid = Some p"
  shows "run_project_workflow fresh pid w =
           Inr (w\<lparr>active_projects := (active_projects w)(pid \<mapsto>
                   fst (last (run_project_workflow_trace fresh pid w))),
                 clock := snd (last (run_project_workflow_trace fresh pid w))\<rparr>)"
  using assms
  by (simp add: run_project_workflow_trace_def repo_trace run_project_workflow_def
      run_project_workflow_with_def workflow_body_def update_status_def add_message_def)

lemma progress_status_not_running: "progress_status k \<noteq> ''running''"
  by (simp add: progress_status_def)

text \<open>
  C7 (the code departs from it). The loop body computes the status
  \<^verbatim>\<open>In progress - N% complete\<close> with \<open>N\<close> equal to \<open>100 * k\<close> divided by seven and rounded
  down, as the claim says (the binary64 computation gives exactly that integer for every
  count below \<open>2 ^ 32\<close>). But the repository's engine never reaches that body: after
  \<^verbatim>\<open>run_workflow\<close> has completed its seven phases, the statuses the project passes
  through are \<^verbatim>\<open>running\<close>, \<^verbatim>\<open>running\<close> and \<^verbatim>\<open>error\<close>, and no progress status is among
  them, for any number of completed steps.
\<close>

theorem engine_publishes_no_progress:
  assumes "active_projects w pid = Some p"
  shows "completed_phases (run_workflow pid (requirements p) fresh) = steps \<and> length steps = 7 \<and>
         run_project_workflow fresh pid w =
           Inr (w\<lparr>active_projects := (active_projects w)(pid \<mapsto>
                   fst (last (run_project_workflow_trace fresh pid w))),
                 clock := snd (last (run_project_workflow_trace fresh pid w))\<rparr>) \<and>
         map (\<lambda>y. status (fst y)) (run_project_workflow_trace fresh pid w)
           = [''running'', ''running'', ''error''] \<and>
         (k < 2 ^ 32 \<longrightarrow>
            progress_status k = ''In progress - '' @ str_nat (100 * k div 7) @ ''% complete'') \<and>
         progress_status k \<notin>
           set (map (\<lambda>y. status (fst y)) (run_project_workflow_trace fresh pid w))"
proof -
  have 1: "completed_phases (run_workflow pid (requirements p) fresh) = steps"
    using run_workflow_phases [of pid "requirements p" fresh] by blast
  have 2: "length steps = 7" by (simp add: steps_def)
  have 3: "k < 2 ^ 32 \<longrightarrow>
      progress_status k = ''In progress - '' @ str_nat (100 * k div 7) @ ''% complete''"
    using progress_status_exact [of k] by blast
  have 4: "progress_status k \<notin>
      set (map (\<lambda>y. status (fst y)) (run_project_workflow_trace fresh pid w))"
    unfolding repo_trace_statuses [OF assms]
    by (simp add: progress_status_not_running progress_status_not_error)
  from 1 2 3 4 repo_trace_statuses [OF assms, of fresh] repo_trace_result [OF assms, of fresh]
  show ?thesis by blast
qed

theorem engine_publishes_no_progress_witness:
  "active_projects tracker_world ''p1'' = Some tracker_project \<and> (3::nat) < 2 ^ 32 \<and>
   completed_phases (run_workflow ''p1'' ''Build a task tracker'' ''u1'') = steps \<and>
   run_project_workflow ''u1'' ''p1'' tracker_world = Inr failed_world \<and>
   map (\<lambda>y. status (fst y)) (run_project_workflow_trace ''u1'' ''p1'' tracker_world)
     = [''running'', ''running'', ''error''] \<and>
   progress_status 3 = ''In progress - 42% complete'' \<and>
   ''In progress - 42% complete'' \<notin>
     set (map (\<lambda>y. status (fst y)) (run_project_workflow_trace ''u1'' ''p1'' tracker_world))"
proof -
  note inst = engine_publishes_no_progress [OF tracker_world_p1, of "''u1''" 3]
  have reqs: "requirements tracker_project = ''Build a task tracker''"
    by (simp add: tracker_project_def)
  from inst have a: "completed_phases (run_workflow ''p1'' ''Build a task tracker'' ''u1'') = steps"
    by (simp add: reqs)
  from inst have b: "map (\<lambda>y. status (fst y)) (run_project_workflow_trace ''u1'' ''p1'' tracker_world)
     = [''running'', ''running'', ''error'']"
    by blast
  from inst have c: "progress_status 3 = ''In progress - 42% complete''"
    by (simp add: str_nat_values)
  from inst have "progress_status 3 \<notin>
      set (map (\<lambda>y. status (fst y)) (run_project_workflow_trace ''u1'' ''p1'' tracker_world))"
    by blast
  then have d: "''In progress - 42% complete'' \<notin>
      set (map (\<lambda>y. status (fst y)) (run_project_workflow_trace ''u1'' ''p1'' tracker_world))"
    unfolding c by assumption
  have e: "(3::nat) < 2 ^ 32" by simp
  from tracker_world_p1 e a b c d failed_world_reached show ?thesis by blast
qed




end
